theory Spec2Isabelle
  imports Complex_Main "HOL-Library.Word" "HOL-Library.Multiset"
begin

unbundle bit_operations_syntax

section \<open>Scene preparation and light selection (filament/src/Scene.cpp)\<close>

text \<open>
  A shallow embedding of \<^verbatim>\<open>FScene::prepare\<close>, \<^verbatim>\<open>FScene::prepareLights\<close>,
  \<^verbatim>\<open>FScene::setSkybox\<close> and \<^verbatim>\<open>FScene::computeBounds\<close>.

  Conventions of the embedding:
  \<^item> \<^verbatim>\<open>float\<close> is modelled by \<open>real\<close>: comparisons, \<open>min\<close> and \<open>max\<close> are those of
    a linear order, arithmetic is exact. Rounding and NaN are outside the model. The
    two library operations that divide, \<^verbatim>\<open>inverse\<close> and \<^verbatim>\<open>normalize\<close>, are not
    defined over the reals: they are parameters, about whose results nothing is assumed.
  \<^item> \<^verbatim>\<open>size_t\<close> is a 64-bit word where the source does bit arithmetic on it.
  \<^item> Component instances are handles; the null instance is \<open>0\<close>.
  \<^item> Undefined behaviour of the source (an unchecked append past the capacity, an
    array index out of bounds, a failed assertion) is a value of type \<open>error\<close>.
\<close>

subsection \<open>Vector and matrix arithmetic\<close>

type_synonym float = real
type_synonym float2 = "float \<times> float"
type_synonym float3 = "float \<times> float \<times> float"
type_synonym float4 = "float \<times> float \<times> float \<times> float"

text \<open>Matrices are column-major, as in the math library: a tuple of column vectors.\<close>

type_synonym mat3f = "float3 \<times> float3 \<times> float3"
type_synonym mat4f = "float4 \<times> float4 \<times> float4 \<times> float4"

text \<open>
  Modelled from the spec: the math library (\<^verbatim>\<open>math/vec3.h\<close>, \<^verbatim>\<open>math/mat3.h\<close>,
  \<^verbatim>\<open>math/mat4.h\<close>) is not part of the source file. The operations below are the
  componentwise sum, difference and scaling, the dot product, the Euclidean length, the
  matrix-vector and matrix-matrix products of column-major matrices, the upper-left 3x3
  block and the transpose.
\<close>

fun add3 :: "float3 \<Rightarrow> float3 \<Rightarrow> float3" where
  "add3 (a, b, c) (x, y, z) = (a + x, b + y, c + z)"

fun sub3 :: "float3 \<Rightarrow> float3 \<Rightarrow> float3" where
  "sub3 (a, b, c) (x, y, z) = (a - x, b - y, c - z)"

fun scale3 :: "float \<Rightarrow> float3 \<Rightarrow> float3" where
  "scale3 k (x, y, z) = (k * x, k * y, k * z)"

fun dot3 :: "float3 \<Rightarrow> float3 \<Rightarrow> float" where
  "dot3 (a, b, c) (x, y, z) = a * x + b * y + c * z"

definition length3 :: "float3 \<Rightarrow> float" where
  "length3 v = sqrt (dot3 v v)"

fun min3 :: "float3 \<Rightarrow> float3 \<Rightarrow> float3" where
  "min3 (a, b, c) (x, y, z) = (min a x, min b y, min c z)"

fun max3 :: "float3 \<Rightarrow> float3 \<Rightarrow> float3" where
  "max3 (a, b, c) (x, y, z) = (max a x, max b y, max c z)"

fun xyz :: "float4 \<Rightarrow> float3" where
  "xyz (x, y, z, w) = (x, y, z)"

fun w_of :: "float4 \<Rightarrow> float" where
  "w_of (x, y, z, w) = w"

fun add4 :: "float4 \<Rightarrow> float4 \<Rightarrow> float4" where
  "add4 (a, b, c, d) (x, y, z, w) = (a + x, b + y, c + z, d + w)"

fun scale4 :: "float \<Rightarrow> float4 \<Rightarrow> float4" where
  "scale4 k (x, y, z, w) = (k * x, k * y, k * z, k * w)"

fun mul_m3_v3 :: "mat3f \<Rightarrow> float3 \<Rightarrow> float3" where
  "mul_m3_v3 (c0, c1, c2) (x, y, z) = add3 (add3 (scale3 x c0) (scale3 y c1)) (scale3 z c2)"

fun mul_m4_v4 :: "mat4f \<Rightarrow> float4 \<Rightarrow> float4" where
  "mul_m4_v4 (c0, c1, c2, c3) (x, y, z, w) =
     add4 (add4 (add4 (scale4 x c0) (scale4 y c1)) (scale4 z c2)) (scale4 w c3)"

fun mul_m4_m4 :: "mat4f \<Rightarrow> mat4f \<Rightarrow> mat4f" where
  "mul_m4_m4 A (b0, b1, b2, b3) =
     (mul_m4_v4 A b0, mul_m4_v4 A b1, mul_m4_v4 A b2, mul_m4_v4 A b3)"

fun upperLeft :: "mat4f \<Rightarrow> mat3f" where
  "upperLeft (c0, c1, c2, c3) = (xyz c0, xyz c1, xyz c2)"

fun transpose :: "mat3f \<Rightarrow> mat3f" where
  "transpose ((a0, a1, a2), (b0, b1, b2), (c0, c1, c2)) =
     ((a0, b0, c0), (a1, b1, c1), (a2, b2, c2))"

definition zero3 :: float3 where
  "zero3 = (0, 0, 0)"

definition zero4 :: float4 where
  "zero4 = (0, 0, 0, 0)"

definition identity4 :: mat4f where
  "identity4 = ((1, 0, 0, 0), (0, 1, 0, 0), (0, 0, 1, 0), (0, 0, 0, 1))"

subsection \<open>Errors\<close>

datatype error =
    CapacityExceeded      \<comment> \<open>\<^verbatim>\<open>push_back_unsafe\<close> on a full container\<close>
  | RowOutOfBounds        \<comment> \<open>\<^verbatim>\<open>elementAt\<close> of a row beyond the logical length\<close>
  | DistancesOutOfBounds  \<comment> \<open>an index beyond the end of the local \<^verbatim>\<open>distances\<close> array\<close>
  | AssertionFailed       \<comment> \<open>the \<^verbatim>\<open>assert\<close> of prepareLights\<close>

subsection \<open>Structure-of-arrays containers\<close>

text \<open>
  Modelled from the spec: \<^verbatim>\<open>utils/StructureOfArrays.h\<close> is not part of the source
  file. All columns have the same logical length, so the container is a list of rows
  with a capacity. \<open>clear\<close> resets the logical length to zero and keeps the storage;
  \<open>setCapacity n\<close> grows the storage to hold at least \<open>n\<close> rows; \<open>resize n\<close> truncates or
  zero-extends to exactly \<open>n\<close> rows; \<open>push_back_unsafe\<close> appends a row and is valid only
  when there is headroom; \<open>elementAt\<close> accesses a row below the logical length.
\<close>

record 'row soa =
  soa_rows :: "'row list"
  soa_capacity :: nat

definition soa_size :: "'row soa \<Rightarrow> nat" where
  "soa_size s = length (soa_rows s)"

definition soa_clear :: "'row soa \<Rightarrow> 'row soa" where
  "soa_clear s = s\<lparr>soa_rows := []\<rparr>"

definition soa_setCapacity :: "nat \<Rightarrow> 'row soa \<Rightarrow> 'row soa" where
  "soa_setCapacity n s = s\<lparr>soa_capacity := max (soa_capacity s) n\<rparr>"

definition soa_resize :: "'row \<Rightarrow> nat \<Rightarrow> 'row soa \<Rightarrow> 'row soa" where
  "soa_resize zero n s =
     s\<lparr>soa_rows := take n (soa_rows s) @ replicate (n - length (soa_rows s)) zero,
       soa_capacity := max (soa_capacity s) n\<rparr>"

definition soa_push_back_unsafe :: "'row \<Rightarrow> 'row soa \<Rightarrow> error + 'row soa" where
  "soa_push_back_unsafe r s =
     (if length (soa_rows s) < soa_capacity s
      then Inr (s\<lparr>soa_rows := soa_rows s @ [r]\<rparr>)
      else Inl CapacityExceeded)"

definition soa_update :: "nat \<Rightarrow> ('row \<Rightarrow> 'row) \<Rightarrow> 'row soa \<Rightarrow> error + 'row soa" where
  "soa_update i f s =
     (if i < length (soa_rows s)
      then Inr (s\<lparr>soa_rows := (soa_rows s)[i := f (soa_rows s ! i)]\<rparr>)
      else Inl RowOutOfBounds)"

subsection \<open>Rows of the two containers\<close>

type_synonym entity = nat
type_synonym inst = nat

record Visibility =
  castShadows :: bool
  receiveShadows :: bool
  culling :: bool

record Box =
  center :: float3
  halfExtent :: float3

record Aabb =
  aabb_min :: float3
  aabb_max :: float3

text \<open>The columns of \<^verbatim>\<open>RenderableSoa\<close>, in the order of the \<^verbatim>\<open>push_back_unsafe\<close> call.\<close>

record renderable_row =
  RENDERABLE_INSTANCE :: inst
  WORLD_TRANSFORM :: mat4f
  VISIBILITY_STATE :: Visibility
  UBH :: nat
  BONES_UBH :: nat
  WORLD_AABB_CENTER :: float3
  VISIBLE_MASK :: "8 word"
  LAYERS :: "8 word"
  WORLD_AABB_EXTENT :: float3
  PRIMITIVES :: nat
  SUMMED_PRIMITIVE_COUNT :: nat

text \<open>The columns of \<^verbatim>\<open>LightSoa\<close>.\<close>

record light_row =
  POSITION_RADIUS :: float4
  DIRECTION :: float3
  LIGHT_INSTANCE :: inst
  VISIBILITY :: "8 word"

definition zero_light_row :: light_row where
  "zero_light_row =
     \<lparr>POSITION_RADIUS = zero4, DIRECTION = zero3, LIGHT_INSTANCE = 0, VISIBILITY = 0\<rparr>"

definition zero_renderable_row :: renderable_row where
  "zero_renderable_row =
     \<lparr>RENDERABLE_INSTANCE = 0,
      WORLD_TRANSFORM = (zero4, zero4, zero4, zero4),
      VISIBILITY_STATE = \<lparr>castShadows = False, receiveShadows = False, culling = False\<rparr>,
      UBH = 0, BONES_UBH = 0, WORLD_AABB_CENTER = zero3, VISIBLE_MASK = 0, LAYERS = 0,
      WORLD_AABB_EXTENT = zero3, PRIMITIVES = 0, SUMMED_PRIMITIVE_COUNT = 0\<rparr>"

subsection \<open>The engine's managers\<close>

text \<open>
  The entity, transform, renderable and light managers are collaborators of the scene;
  the scene only reads them through the accessors below, which are parameters of the
  model. So are three operations of the math library, which is not part of the source
  file: \<^verbatim>\<open>rigidTransform\<close> of a box, the \<^verbatim>\<open>inverse\<close> of a 3x3 matrix and
  \<^verbatim>\<open>normalize\<close> of a vector. The last two divide in 32-bit floating point, where
  a zero divisor or an overflow gives infinities and NaN; the model calls them and
  assumes nothing about what they return.
\<close>

record engine =
  em_isAlive :: "entity \<Rightarrow> bool"
  rcm_getInstance :: "entity \<Rightarrow> inst"
  tcm_getInstance :: "entity \<Rightarrow> inst"
  lcm_getInstance :: "entity \<Rightarrow> inst"
  tcm_getWorldTransform :: "inst \<Rightarrow> mat4f"
  rigidTransform :: "Box \<Rightarrow> mat4f \<Rightarrow> Box"
  inverse :: "mat3f \<Rightarrow> mat3f"
  normalize :: "float3 \<Rightarrow> float3"
  rcm_getAABB :: "inst \<Rightarrow> Box"
  rcm_getVisibility :: "inst \<Rightarrow> Visibility"
  rcm_getUbh :: "inst \<Rightarrow> nat"
  rcm_getBonesUbh :: "inst \<Rightarrow> nat"
  rcm_getLayerMask :: "inst \<Rightarrow> 8 word"
  lcm_isDirectionalLight :: "inst \<Rightarrow> bool"
  lcm_isPointLight :: "inst \<Rightarrow> bool"
  lcm_isIESLight :: "inst \<Rightarrow> bool"
  lcm_getIntensity :: "inst \<Rightarrow> float"
  lcm_getLocalDirection :: "inst \<Rightarrow> float3"
  lcm_getLocalPosition :: "inst \<Rightarrow> float3"
  lcm_getRadius :: "inst \<Rightarrow> float"
  lcm_getSquaredFalloffInv :: "inst \<Rightarrow> float"
  lcm_getColor :: "inst \<Rightarrow> float3"
  lcm_getSpotParams_scaleOffset :: "inst \<Rightarrow> float2"

subsection \<open>The GPU light buffer\<close>

text \<open>
  Modelled from the spec: \<^verbatim>\<open>details/GpuLightBuffer.h\<close> is not part of the source
  file. The buffer is an array of packed light parameters, written slot by slot through
  \<^verbatim>\<open>getLightParameters(index)\<close>; \<^verbatim>\<open>invalidate(offset, count)\<close> marks the \<open>count\<close>
  slots starting at \<open>offset\<close> dirty; \<^verbatim>\<open>commit\<close> publishes the buffer. The model keeps
  the slots and the sequence of operations issued on the buffer.
\<close>

record LightParameters =
  positionFalloff :: float4
  colorIntensity :: float4
  directionIES :: float4
  spotScaleOffset :: float4

datatype gpu_op = SlotWrite nat | Invalidate nat nat | Commit

record GpuLightBuffer =
  gpu_slots :: "nat \<Rightarrow> LightParameters"
  gpu_ops :: "gpu_op list"

definition dirty_range :: "gpu_op \<Rightarrow> nat set" where
  "dirty_range op = (case op of Invalidate off cnt \<Rightarrow> {off ..< off + cnt} | _ \<Rightarrow> {})"

definition written_slots :: "gpu_op list \<Rightarrow> nat set" where
  "written_slots ops = {i. SlotWrite i \<in> set ops}"

subsection \<open>The scene\<close>

record Skybox =
  getEntity :: entity

record scene =
  mEntities :: "entity set"
  mRenderableData :: "renderable_row soa"
  mLightData :: "light_row soa"
  mSkybox :: "Skybox option"
  mGpuLightData :: GpuLightBuffer

text \<open>
  Modelled from the spec: \<^verbatim>\<open>DIRECTIONAL_LIGHTS_COUNT\<close> is declared in
  \<^verbatim>\<open>details/Scene.h\<close>, which is not part of the source file. Row 0 of the light
  container is the only row reserved for the directional light.
\<close>

definition DIRECTIONAL_LIGHTS_COUNT :: nat where
  "DIRECTIONAL_LIGHTS_COUNT = 1"


subsection \<open>prepareLights\<close>

text \<open>
  \<^verbatim>\<open>CONFIG_MAX_LIGHT_COUNT\<close> is declared outside the source file; it is the
  parameter \<open>K\<close> of the definitions below. The camera enters only through its position.
\<close>

definition boundary_distance :: "float3 \<Rightarrow> float4 \<Rightarrow> float" where
  "boundary_distance position s = max 0 (length3 (sub3 position (xyz s)) - w_of s)"

text \<open>
  The first loop of the truncation branch. \<^verbatim>\<open>distances\<close> is a local array of
  \<^verbatim>\<open>CONFIG_MAX_LIGHT_COUNT\<close> uninitialised floats (\<open>None\<close>), and the loop stores the
  distance of row \<open>i\<close> at index \<open>i\<close>, for every row index from
  \<^verbatim>\<open>DIRECTIONAL_LIGHTS_COUNT\<close> up to the size of the container.
\<close>

fun fill_distances ::
  "float3 \<Rightarrow> light_row list \<Rightarrow> nat list \<Rightarrow> float option list \<Rightarrow> error + float option list"
where
  "fill_distances position rows [] distances = Inr distances"
| "fill_distances position rows (i # is) distances =
     (if i < length distances
      then fill_distances position rows is
             (distances[i := Some (boundary_distance position (POSITION_RADIUS (rows ! i)))])
      else Inl DistancesOutOfBounds)"

text \<open>
  \<^verbatim>\<open>std::sort\<close> over the zipped range \<^verbatim>\<open>[b + 1, b + size)\<close>, ascending in the
  distance; row 0 is outside the range. The order of equal distances is left open by
  \<^verbatim>\<open>std::sort\<close>; the model takes the stable one.
\<close>

definition sort_by_distance :: "light_row list \<Rightarrow> float option list \<Rightarrow> light_row list" where
  "sort_by_distance rows distances =
     take DIRECTIONAL_LIGHTS_COUNT rows @
     map fst (sort_key (\<lambda>p. the (snd p))
       (zip (drop DIRECTIONAL_LIGHTS_COUNT rows) (drop DIRECTIONAL_LIGHTS_COUNT distances)))"

definition truncateLights :: "nat \<Rightarrow> float3 \<Rightarrow> light_row soa \<Rightarrow> error + light_row soa" where
  "truncateLights K position lightData =
     (if soa_size lightData > K + DIRECTIONAL_LIGHTS_COUNT
      then (case fill_distances position (soa_rows lightData)
                   [DIRECTIONAL_LIGHTS_COUNT ..< soa_size lightData] (replicate K None) of
              Inl e \<Rightarrow> Inl e
            | Inr distances \<Rightarrow>
                Inr (soa_resize zero_light_row
                       (min (soa_size lightData) (K + DIRECTIONAL_LIGHTS_COUNT))
                       (lightData\<lparr>soa_rows := sort_by_distance (soa_rows lightData) distances\<rparr>)))
      else Inr lightData)"

text \<open>The body of the second loop: the fields written into one slot of the GPU buffer.\<close>

definition pack_light :: "engine \<Rightarrow> light_row \<Rightarrow> LightParameters \<Rightarrow> LightParameters" where
  "pack_light eng row lp =
     (let li = LIGHT_INSTANCE row;
          (px, py, pz) = xyz (POSITION_RADIUS row);
          (cr, cg, cb) = lcm_getColor eng li;
          (dx, dy, dz) = DIRECTION row;
          (sx, sy) = lcm_getSpotParams_scaleOffset eng li;
          (ox, oy, oz, ow) = spotScaleOffset lp
      in lp\<lparr>positionFalloff := (px, py, pz, lcm_getSquaredFalloffInv eng li),
            colorIntensity := (cr, cg, cb, lcm_getIntensity eng li),
            directionIES := (dx, dy, dz, 0),
            spotScaleOffset := (sx, sy, oz, ow)\<rparr>)"

definition gpu_write :: "nat \<Rightarrow> (LightParameters \<Rightarrow> LightParameters) \<Rightarrow> GpuLightBuffer \<Rightarrow> GpuLightBuffer" where
  "gpu_write gpuIndex f gpu =
     gpu\<lparr>gpu_slots := (gpu_slots gpu)(gpuIndex := f (gpu_slots gpu gpuIndex)),
         gpu_ops := gpu_ops gpu @ [SlotWrite gpuIndex]\<rparr>"

definition gpu_invalidate :: "nat \<Rightarrow> nat \<Rightarrow> GpuLightBuffer \<Rightarrow> GpuLightBuffer" where
  "gpu_invalidate off cnt gpu = gpu\<lparr>gpu_ops := gpu_ops gpu @ [Invalidate off cnt]\<rparr>"

definition gpu_commit :: "GpuLightBuffer \<Rightarrow> GpuLightBuffer" where
  "gpu_commit gpu = gpu\<lparr>gpu_ops := gpu_ops gpu @ [Commit]\<rparr>"

fun write_lights :: "engine \<Rightarrow> light_row list \<Rightarrow> nat list \<Rightarrow> GpuLightBuffer \<Rightarrow> GpuLightBuffer" where
  "write_lights eng rows [] gpu = gpu"
| "write_lights eng rows (i # is) gpu =
     write_lights eng rows is
       (gpu_write (i - DIRECTIONAL_LIGHTS_COUNT) (pack_light eng (rows ! i)) gpu)"

definition prepareLights :: "nat \<Rightarrow> engine \<Rightarrow> float3 \<Rightarrow> scene \<Rightarrow> error + scene" where
  "prepareLights K eng position s =
     (case truncateLights K position (mLightData s) of
        Inl e \<Rightarrow> Inl e
      | Inr lightData \<Rightarrow>
          if \<not> soa_size lightData \<le> K + 1 then Inl AssertionFailed
          else Inr (s\<lparr>mLightData := lightData,
                      mGpuLightData :=
                        gpu_commit (gpu_invalidate 0 (soa_size lightData)
                          (write_lights eng (soa_rows lightData)
                             [DIRECTIONAL_LIGHTS_COUNT ..< soa_size lightData]
                             (mGpuLightData s)))\<rparr>))"


subsection \<open>prepare\<close>

text \<open>
  The capacity computed at the head of \<^verbatim>\<open>prepare\<close>, in \<^verbatim>\<open>size_t\<close> arithmetic:
  \<^verbatim>\<open>capacity = (capacity + 0xF) & ~0xF; capacity = capacity + 1\<close>.
\<close>

definition capacity_bound :: "nat \<Rightarrow> nat" where
  "capacity_bound n = unat ((((of_nat n :: 64 word) + 0xF) AND NOT 0xF) + 1)"

text \<open>The sizing step: both containers are cleared and grown, row 0 of the lights is reserved.\<close>

definition prepare_sizing :: "nat \<Rightarrow> scene \<Rightarrow> scene" where
  "prepare_sizing capacity s =
     (let sceneData = soa_clear (mRenderableData s);
          sceneData = (if soa_capacity sceneData < capacity
                       then soa_setCapacity capacity sceneData else sceneData);
          lightData = soa_clear (mLightData s);
          lightData = (if soa_capacity lightData < capacity
                       then soa_setCapacity capacity lightData else lightData);
          lightData = soa_resize zero_light_row DIRECTIONAL_LIGHTS_COUNT lightData
      in s\<lparr>mRenderableData := sceneData, mLightData := lightData\<rparr>)"

definition world_direction :: "engine \<Rightarrow> mat4f \<Rightarrow> float3 \<Rightarrow> float3" where
  "world_direction eng worldTransform d =
     normalize eng (mul_m3_v3 (transpose (inverse eng (upperLeft worldTransform))) d)"

definition renderable_row_of :: "engine \<Rightarrow> inst \<Rightarrow> mat4f \<Rightarrow> renderable_row" where
  "renderable_row_of eng ri worldTransform =
     (let worldAABB = rigidTransform eng (rcm_getAABB eng ri) worldTransform
      in \<lparr>RENDERABLE_INSTANCE = ri,
          WORLD_TRANSFORM = worldTransform,
          VISIBILITY_STATE = rcm_getVisibility eng ri,
          UBH = rcm_getUbh eng ri,
          BONES_UBH = rcm_getBonesUbh eng ri,
          WORLD_AABB_CENTER = center worldAABB,
          VISIBLE_MASK = 0,
          LAYERS = rcm_getLayerMask eng ri,
          WORLD_AABB_EXTENT = halfExtent worldAABB,
          PRIMITIVES = 0,
          SUMMED_PRIMITIVE_COUNT = 0\<rparr>)"

definition local_light_row :: "engine \<Rightarrow> inst \<Rightarrow> mat4f \<Rightarrow> light_row" where
  "local_light_row eng li worldTransform =
     (let (lx, ly, lz) = lcm_getLocalPosition eng li;
          p = mul_m4_v4 worldTransform (lx, ly, lz, 1);
          (px, py, pz) = xyz p;
          d = (if \<not> lcm_isPointLight eng li \<or> lcm_isIESLight eng li
               then world_direction eng worldTransform (lcm_getLocalDirection eng li)
               else zero3)
      in \<lparr>POSITION_RADIUS = (px, py, pz, lcm_getRadius eng li),
          DIRECTION = d, LIGHT_INSTANCE = li, VISIBILITY = 0\<rparr>)"

definition directional_light_row :: "engine \<Rightarrow> inst \<Rightarrow> mat4f \<Rightarrow> light_row \<Rightarrow> light_row" where
  "directional_light_row eng li worldTransform row =
     row\<lparr>POSITION_RADIUS := zero4,
         DIRECTION := world_direction eng worldTransform (lcm_getLocalDirection eng li),
         LIGHT_INSTANCE := li,
         VISIBILITY := 0\<rparr>"

text \<open>
  The body of the loop over the entities. \<open>maxIntensity\<close> is the local variable of that
  name: the body reads it and never assigns it.
\<close>

definition gather_entity ::
  "engine \<Rightarrow> mat4f \<Rightarrow> float \<Rightarrow> entity \<Rightarrow> renderable_row soa \<times> light_row soa
     \<Rightarrow> error + (renderable_row soa \<times> light_row soa)"
where
  "gather_entity eng worldOriginTransform maxIntensity e st =
     (case st of (sceneData, lightData) \<Rightarrow>
        if \<not> em_isAlive eng e then Inr st
        else
          let ri = rcm_getInstance eng e; li = lcm_getInstance eng e in
          if ri = 0 \<and> li = 0 then Inr st
          else
            let ti = tcm_getInstance eng e;
                worldTransform = mul_m4_m4 worldOriginTransform (tcm_getWorldTransform eng ti)
            in case (if ri \<noteq> 0 \<and> ti \<noteq> 0
                     then soa_push_back_unsafe (renderable_row_of eng ri worldTransform) sceneData
                     else Inr sceneData) of
                 Inl err \<Rightarrow> Inl err
               | Inr sceneData' \<Rightarrow>
                   if li \<noteq> 0 then
                     if lcm_isDirectionalLight eng li then
                       if lcm_getIntensity eng li \<ge> maxIntensity then
                         (case soa_update 0 (directional_light_row eng li worldTransform) lightData of
                            Inl err \<Rightarrow> Inl err
                          | Inr lightData' \<Rightarrow> Inr (sceneData', lightData'))
                       else Inr (sceneData', lightData)
                     else
                       (case soa_push_back_unsafe (local_light_row eng li worldTransform) lightData of
                          Inl err \<Rightarrow> Inl err
                        | Inr lightData' \<Rightarrow> Inr (sceneData', lightData'))
                   else Inr (sceneData', lightData))"

fun gather ::
  "engine \<Rightarrow> mat4f \<Rightarrow> float \<Rightarrow> entity list \<Rightarrow> renderable_row soa \<times> light_row soa
     \<Rightarrow> error + (renderable_row soa \<times> light_row soa)"
where
  "gather eng worldOriginTransform maxIntensity [] st = Inr st"
| "gather eng worldOriginTransform maxIntensity (e # es) st =
     (case gather_entity eng worldOriginTransform maxIntensity e st of
        Inl err \<Rightarrow> Inl err
      | Inr st' \<Rightarrow> gather eng worldOriginTransform maxIntensity es st')"

text \<open>
  \<^verbatim>\<open>mEntities\<close> is an unordered set; the loop visits its elements in the order of the
  container, which the scene does not control. \<open>prepare\<close> takes that order as the list
  \<open>entities\<close>, an enumeration of the set without repetition.
\<close>

definition iteration_of :: "entity list \<Rightarrow> scene \<Rightarrow> bool" where
  "iteration_of entities s \<longleftrightarrow> distinct entities \<and> set entities = mEntities s"

definition prepare :: "engine \<Rightarrow> mat4f \<Rightarrow> entity list \<Rightarrow> scene \<Rightarrow> error + scene" where
  "prepare eng worldOriginTransform entities s =
     (let capacity = capacity_bound (length entities);
          s1 = prepare_sizing capacity s;
          maxIntensity = 0
      in case gather eng worldOriginTransform maxIntensity entities
                (mRenderableData s1, mLightData s1) of
           Inl err \<Rightarrow> Inl err
         | Inr (sceneData, lightData) \<Rightarrow>
             Inr (s1\<lparr>mRenderableData := sceneData, mLightData := lightData\<rparr>))"

subsection \<open>addEntity, remove, setSkybox\<close>

definition addEntity :: "entity \<Rightarrow> scene \<Rightarrow> scene" where
  "addEntity e s = s\<lparr>mEntities := insert e (mEntities s)\<rparr>"

definition remove :: "entity \<Rightarrow> scene \<Rightarrow> scene" where
  "remove e s = s\<lparr>mEntities := mEntities s - {e}\<rparr>"

text \<open>\<^verbatim>\<open>std::swap(mSkybox, skybox)\<close>: afterwards \<open>old\<close> is the skybox registered before.\<close>

definition setSkybox :: "Skybox option \<Rightarrow> scene \<Rightarrow> scene" where
  "setSkybox skybox s =
     (let old = mSkybox s;
          s1 = s\<lparr>mSkybox := skybox\<rparr>;
          s2 = (case old of Some k \<Rightarrow> remove (getEntity k) s1 | None \<Rightarrow> s1)
      in (case mSkybox s2 of Some k \<Rightarrow> addEntity (getEntity k) s2 | None \<Rightarrow> s2))"

subsection \<open>computeBounds\<close>

definition expand :: "Aabb \<Rightarrow> Aabb \<Rightarrow> Aabb" where
  "expand box aabb =
     box\<lparr>aabb_min := min3 (aabb_min box) (aabb_min aabb),
         aabb_max := max3 (aabb_max box) (aabb_max aabb)\<rparr>"

definition computeBounds_row :: "32 word \<Rightarrow> renderable_row \<Rightarrow> Aabb \<times> Aabb \<Rightarrow> Aabb \<times> Aabb" where
  "computeBounds_row visibleLayers row boxes =
     (case boxes of (castersBox, receiversBox) \<Rightarrow>
        if ucast (LAYERS row) AND visibleLayers \<noteq> 0 then
          let aabb = \<lparr>aabb_min = sub3 (WORLD_AABB_CENTER row) (WORLD_AABB_EXTENT row),
                      aabb_max = add3 (WORLD_AABB_CENTER row) (WORLD_AABB_EXTENT row)\<rparr>
          in ((if castShadows (VISIBILITY_STATE row) then expand castersBox aabb else castersBox),
              (if receiveShadows (VISIBILITY_STATE row) then expand receiversBox aabb
               else receiversBox))
        else boxes)"

fun computeBounds_loop :: "32 word \<Rightarrow> renderable_row list \<Rightarrow> Aabb \<times> Aabb \<Rightarrow> Aabb \<times> Aabb" where
  "computeBounds_loop visibleLayers [] boxes = boxes"
| "computeBounds_loop visibleLayers (row # rows) boxes =
     computeBounds_loop visibleLayers rows (computeBounds_row visibleLayers row boxes)"

definition computeBounds :: "scene \<Rightarrow> Aabb \<times> Aabb \<Rightarrow> 32 word \<Rightarrow> Aabb \<times> Aabb" where
  "computeBounds s boxes visibleLayers =
     computeBounds_loop visibleLayers (soa_rows (mRenderableData s)) boxes"


subsection \<open>Concrete inputs\<close>

text \<open>
  A small engine and scene on which the definitions are evaluated. Entity 1 is a
  renderable with a transform, entities 2 and 3 are directional lights of intensity 10
  and 5, entity 4 is a point light without IES profile, entity 5 is a spot light,
  entity 6 is a renderable without transform, entity 7 has no component and entity 9
  is a dead renderable. The instance of an entity in a manager is the entity's number.
  Every transform is the identity and every light points along the unit vector
  \<open>(0, 0, 1)\<close>; on the identity matrix and on this vector \<^verbatim>\<open>inverse\<close> and
  \<^verbatim>\<open>normalize\<close> return their argument, and the demo engine takes them to be the
  identity.
\<close>

definition demo_engine :: engine where
  "demo_engine =
     \<lparr>em_isAlive = (\<lambda>e. e \<noteq> 9),
      rcm_getInstance = (\<lambda>e. if e = 1 \<or> e = 6 \<or> e = 9 then e else 0),
      tcm_getInstance = (\<lambda>e. if 1 \<le> e \<and> e \<le> 5 then e else 0),
      lcm_getInstance = (\<lambda>e. if 2 \<le> e \<and> e \<le> 5 then e else 0),
      tcm_getWorldTransform = (\<lambda>ti. identity4),
      rigidTransform = (\<lambda>box m. box),
      inverse = (\<lambda>m. m),
      normalize = (\<lambda>v. v),
      rcm_getAABB = (\<lambda>ri. \<lparr>center = zero3, halfExtent = (1, 1, 1)\<rparr>),
      rcm_getVisibility =
        (\<lambda>ri. \<lparr>castShadows = True, receiveShadows = True, culling = True\<rparr>),
      rcm_getUbh = (\<lambda>ri. ri),
      rcm_getBonesUbh = (\<lambda>ri. 0),
      rcm_getLayerMask = (\<lambda>ri. 1),
      lcm_isDirectionalLight = (\<lambda>li. li = 2 \<or> li = 3),
      lcm_isPointLight = (\<lambda>li. li = 4),
      lcm_isIESLight = (\<lambda>li. False),
      lcm_getIntensity = (\<lambda>li. if li = 2 then 10 else if li = 3 then 5 else 1),
      lcm_getLocalDirection = (\<lambda>li. (0, 0, 1)),
      lcm_getLocalPosition = (\<lambda>li. (real li, 0, 0)),
      lcm_getRadius = (\<lambda>li. 1),
      lcm_getSquaredFalloffInv = (\<lambda>li. 1),
      lcm_getColor = (\<lambda>li. (1, 1, 1)),
      lcm_getSpotParams_scaleOffset = (\<lambda>li. (1, 0))\<rparr>"

definition demo_gpu :: GpuLightBuffer where
  "demo_gpu =
     \<lparr>gpu_slots = (\<lambda>i. \<lparr>positionFalloff = zero4, colorIntensity = zero4,
                         directionIES = zero4, spotScaleOffset = zero4\<rparr>),
      gpu_ops = []\<rparr>"

definition demo_light :: "inst \<Rightarrow> float \<Rightarrow> light_row" where
  "demo_light li x =
     \<lparr>POSITION_RADIUS = (x, 0, 0, 1), DIRECTION = zero3, LIGHT_INSTANCE = li, VISIBILITY = 0\<rparr>"

definition demo_scene :: "entity set \<Rightarrow> light_row list \<Rightarrow> scene" where
  "demo_scene es rows =
     \<lparr>mEntities = es,
      mRenderableData = \<lparr>soa_rows = [], soa_capacity = 17\<rparr>,
      mLightData = \<lparr>soa_rows = rows, soa_capacity = 17\<rparr>,
      mSkybox = None,
      mGpuLightData = demo_gpu\<rparr>"

subsection \<open>Vocabulary of the properties\<close>

text \<open>
  The entities that contribute a row: an alive entity with a renderable instance and a
  transform instance, and an alive entity with a light instance that is not directional.
  \<open>world_transform_of\<close> is the world transform the loop computes for an entity.
\<close>

definition is_renderable :: "engine \<Rightarrow> entity \<Rightarrow> bool" where
  "is_renderable eng e \<longleftrightarrow>
     em_isAlive eng e \<and> rcm_getInstance eng e \<noteq> 0 \<and> tcm_getInstance eng e \<noteq> 0"

definition is_local_light :: "engine \<Rightarrow> entity \<Rightarrow> bool" where
  "is_local_light eng e \<longleftrightarrow>
     em_isAlive eng e \<and> lcm_getInstance eng e \<noteq> 0 \<and>
     \<not> lcm_isDirectionalLight eng (lcm_getInstance eng e)"

definition world_transform_of :: "engine \<Rightarrow> mat4f \<Rightarrow> entity \<Rightarrow> mat4f" where
  "world_transform_of eng worldOriginTransform e =
     mul_m4_m4 worldOriginTransform (tcm_getWorldTransform eng (tcm_getInstance eng e))"

text \<open>The rows of the light container in the result of a call, empty when the call failed.\<close>

definition result_lights :: "error + scene \<Rightarrow> light_row list" where
  "result_lights r = (case r of Inl err \<Rightarrow> [] | Inr s \<Rightarrow> soa_rows (mLightData s))"

definition result_gpu_ops :: "error + scene \<Rightarrow> gpu_op list" where
  "result_gpu_ops r = (case r of Inl err \<Rightarrow> [] | Inr s \<Rightarrow> gpu_ops (mGpuLightData s))"

definition demo_entities :: "entity list" where
  "demo_entities = [1, 2, 3, 4, 5, 6, 7, 9]"

text \<open>
  An alive directional light whose intensity passes the comparison with \<open>maxIntensity\<close>.
\<close>

definition is_dominant :: "engine \<Rightarrow> float \<Rightarrow> entity \<Rightarrow> bool" where
  "is_dominant eng maxIntensity e \<longleftrightarrow>
     em_isAlive eng e \<and> lcm_getInstance eng e \<noteq> 0 \<and>
     lcm_isDirectionalLight eng (lcm_getInstance eng e) \<and>
     lcm_getIntensity eng (lcm_getInstance eng e) \<ge> maxIntensity"

text \<open>
  The skybox entities among the members of the scene are accounted for when every skybox
  whose entity is a member is the registered one; then at most one skybox entity is a
  member.
\<close>

definition skybox_entities_registered :: "Skybox set \<Rightarrow> scene \<Rightarrow> bool" where
  "skybox_entities_registered skyboxes s \<longleftrightarrow>
     (\<forall>k \<in> skyboxes. getEntity k \<in> mEntities s \<longrightarrow> mSkybox s = Some k)"

text \<open>
  Renderable rows with unit half-extent centred at \<open>(x, 0, 0)\<close>, all casting shadows,
  and accumulator boxes to start \<open>computeBounds\<close> from.
\<close>

definition demo_renderable :: "8 word \<Rightarrow> float \<Rightarrow> renderable_row" where
  "demo_renderable layers x =
     zero_renderable_row
       \<lparr>VISIBILITY_STATE := \<lparr>castShadows = True, receiveShadows = (x < 5), culling = True\<rparr>,
        WORLD_AABB_CENTER := (x, 0, 0), LAYERS := layers, WORLD_AABB_EXTENT := (1, 1, 1)\<rparr>"

definition demo_renderables :: "renderable_row list \<Rightarrow> scene" where
  "demo_renderables rows =
     (demo_scene {} [])\<lparr>mRenderableData := \<lparr>soa_rows = rows, soa_capacity = 17\<rparr>\<rparr>"

definition demo_boxes :: "Aabb \<times> Aabb" where
  "demo_boxes = (\<lparr>aabb_min = (100, 100, 100), aabb_max = (-100, -100, -100)\<rparr>,
                 \<lparr>aabb_min = (100, 100, 100), aabb_max = (-100, -100, -100)\<rparr>)"

section \<open>Properties\<close>

subsection \<open>prepareLights below the limit\<close>

text \<open>
  Claim C10. When the light container holds at most \<^verbatim>\<open>CONFIG_MAX_LIGHT_COUNT + 1\<close>
  rows on entry, the truncation branch of prepareLights is not taken, whatever the camera
  position: the container comes back as it was (same length, same rows, same order), and
  the call succeeds with a scene that differs from the input in the GPU light buffer
  only.
\<close>

theorem prepareLights_within_limit_unchanged:
  assumes "soa_size (mLightData s) \<le> K + 1"
  shows "truncateLights K position (mLightData s) = Inr (mLightData s) \<and>
         (\<exists>gpu. prepareLights K eng position s = Inr (s\<lparr>mGpuLightData := gpu\<rparr>)) \<and>
         (\<forall>s'. prepareLights K eng position s = Inr s' \<longrightarrow> mLightData s' = mLightData s)"
  using assms
  by (auto simp add: prepareLights_def truncateLights_def DIRECTIONAL_LIGHTS_COUNT_def)

theorem prepareLights_within_limit_unchanged_witness:
  "soa_size (mLightData (demo_scene {} [zero_light_row, demo_light 4 3, demo_light 5 1])) \<le> 2 + 1 \<and>
   truncateLights 2 (0, 0, 0)
       (mLightData (demo_scene {} [zero_light_row, demo_light 4 3, demo_light 5 1]))
     = Inr (mLightData (demo_scene {} [zero_light_row, demo_light 4 3, demo_light 5 1])) \<and>
   (\<exists>gpu. prepareLights 2 demo_engine (0, 0, 0)
              (demo_scene {} [zero_light_row, demo_light 4 3, demo_light 5 1])
      = Inr ((demo_scene {} [zero_light_row, demo_light 4 3, demo_light 5 1])
               \<lparr>mGpuLightData := gpu\<rparr>))"
proof -
  have h: "soa_size (mLightData (demo_scene {} [zero_light_row, demo_light 4 3, demo_light 5 1]))
             \<le> 2 + 1"
    by (simp add: demo_scene_def soa_size_def)
  show ?thesis
    using h prepareLights_within_limit_unchanged [OF h, of "(0, 0, 0)" demo_engine] by simp
qed


subsection \<open>The capacity computed by prepare\<close>

lemma and_not_15: "(w :: 64 word) AND NOT 0xF = (w div 16) * 16"
proof -
  have "(0xF :: 64 word) = mask 4" by (simp add: mask_eq_exp_minus_1)
  then have "w AND NOT 0xF = push_bit 4 (drop_bit 4 w)"
    by (auto simp add: bit_eq_iff bit_simps)
  then show ?thesis
    by (simp add: push_bit_eq_mult drop_bit_eq_div)
qed

lemma unat_and_not_15: "unat ((w :: 64 word) AND NOT 0xF) = 16 * (unat w div 16)"
proof -
  have d: "unat (w div 16) = unat w div 16"
    by (simp add: unat_div)
  have "unat w < 2 ^ 64" using unsigned_less [of w, where ?'a = nat] by simp
  then have "unat (w div 16) * unat (16 :: 64 word) < 2 ^ LENGTH(64)"
    by (simp add: d)
  then have "unat (w div 16 * 16) = unat (w div 16) * unat (16 :: 64 word)"
    by (simp only: unat_mult_lem)
  then have "unat (w div 16 * 16) = 16 * (unat w div 16)"
    by (simp add: d)
  then show ?thesis
    by (simp only: and_not_15)
qed

lemma capacity_bound_eq:
  assumes "n + 16 < 2 ^ 64"
  shows "capacity_bound n = ((n + 15) div 16) * 16 + 1"
proof -
  have a: "unat ((of_nat n :: 64 word) + 0xF) = n + 15"
  proof -
    have "(of_nat n :: 64 word) + 0xF = of_nat (n + 15)" by simp
    then show ?thesis using assms by (simp only: unat_of_nat) simp
  qed
  have b: "unat (((of_nat n :: 64 word) + 0xF) AND NOT 0xF) = 16 * ((n + 15) div 16)"
    by (simp only: unat_and_not_15 a)
  have le: "16 * ((n + 15) div 16) \<le> n + 15" by simp
  have "16 * ((n + 15) div 16) + 1 < (2 :: nat) ^ 64"
    using assms le by linarith
  then have c: "16 * ((n + 15) div 16) + unat (1 :: 64 word) < 2 ^ LENGTH(64)"
    by simp
  have "unat (((of_nat n :: 64 word) + 0xF) AND NOT 0xF) + unat (1 :: 64 word) < 2 ^ LENGTH(64)"
    by (simp only: b c)
  then have "unat ((((of_nat n :: 64 word) + 0xF) AND NOT 0xF) + 1)
     = unat (((of_nat n :: 64 word) + 0xF) AND NOT 0xF) + unat (1 :: 64 word)"
    by (simp only: unat_add_lem)
  then show ?thesis
    by (simp only: capacity_bound_def b) simp
qed

lemma capacity_bound_ge: "n + 16 < 2 ^ 64 \<Longrightarrow> n + 1 \<le> capacity_bound n"
  by (simp add: capacity_bound_eq)

subsection \<open>Row counts after prepare\<close>

lemma gather_entity_sizes:
  assumes "length (soa_rows sd) < soa_capacity sd"
    and "length (soa_rows ld) < soa_capacity ld"
    and "1 \<le> length (soa_rows ld)"
  shows "\<exists>sd' ld'. gather_entity eng W mx e (sd, ld) = Inr (sd', ld') \<and>
           length (soa_rows sd') = length (soa_rows sd) + (if is_renderable eng e then 1 else 0) \<and>
           length (soa_rows ld') = length (soa_rows ld) + (if is_local_light eng e then 1 else 0) \<and>
           soa_capacity sd' = soa_capacity sd \<and> soa_capacity ld' = soa_capacity ld"
  using assms
  by (auto simp add: gather_entity_def is_renderable_def is_local_light_def Let_def
        soa_push_back_unsafe_def soa_update_def)

lemma gather_sizes:
  assumes "length (soa_rows sd) + length es \<le> soa_capacity sd"
    and "length (soa_rows ld) + length es \<le> soa_capacity ld"
    and "1 \<le> length (soa_rows ld)"
  shows "\<exists>sd' ld'. gather eng W mx es (sd, ld) = Inr (sd', ld') \<and>
           length (soa_rows sd') = length (soa_rows sd) + length (filter (is_renderable eng) es) \<and>
           length (soa_rows ld') = length (soa_rows ld) + length (filter (is_local_light eng) es) \<and>
           soa_capacity sd' = soa_capacity sd \<and> soa_capacity ld' = soa_capacity ld"
  using assms
proof (induction es arbitrary: sd ld)
  case Nil
  then show ?case by simp
next
  case (Cons e es)
  from Cons.prems have "length (soa_rows sd) < soa_capacity sd"
    "length (soa_rows ld) < soa_capacity ld" "1 \<le> length (soa_rows ld)" by simp_all
  from gather_entity_sizes [OF this, of eng W mx e]
  obtain sd1 ld1 where step: "gather_entity eng W mx e (sd, ld) = Inr (sd1, ld1)"
    and s1: "length (soa_rows sd1) = length (soa_rows sd) + (if is_renderable eng e then 1 else 0)"
    and l1: "length (soa_rows ld1) = length (soa_rows ld) + (if is_local_light eng e then 1 else 0)"
    and c1: "soa_capacity sd1 = soa_capacity sd" "soa_capacity ld1 = soa_capacity ld"
    by blast
  have "length (soa_rows sd1) + length es \<le> soa_capacity sd1"
    "length (soa_rows ld1) + length es \<le> soa_capacity ld1" "1 \<le> length (soa_rows ld1)"
    using Cons.prems s1 l1 c1 by (simp_all split: if_splits)
  from Cons.IH [OF this]
  obtain sd' ld' where rest: "gather eng W mx es (sd1, ld1) = Inr (sd', ld')"
    and s2: "length (soa_rows sd') = length (soa_rows sd1) + length (filter (is_renderable eng) es)"
    and l2: "length (soa_rows ld') = length (soa_rows ld1) + length (filter (is_local_light eng) es)"
    and c2: "soa_capacity sd' = soa_capacity sd1" "soa_capacity ld' = soa_capacity ld1"
    by blast
  show ?case
    using step rest s1 s2 l1 l2 c1 c2 by simp
qed

lemma prepare_result:
  assumes "length entities + 16 < 2 ^ 64"
  shows "\<exists>sd ld. prepare eng W entities s = Inr (s\<lparr>mRenderableData := sd, mLightData := ld\<rparr>) \<and>
           length (soa_rows sd) = length (filter (is_renderable eng) entities) \<and>
           length (soa_rows ld) = 1 + length (filter (is_local_light eng) entities) \<and>
           soa_capacity sd = max (soa_capacity (mRenderableData s)) (capacity_bound (length entities)) \<and>
           soa_capacity ld = max (soa_capacity (mLightData s)) (capacity_bound (length entities))"
proof -
  let ?c = "capacity_bound (length entities)"
  let ?s1 = "prepare_sizing ?c s"
  have c: "length entities + 1 \<le> ?c" using assms by (rule capacity_bound_ge)
  have sd0: "soa_rows (mRenderableData ?s1) = []"
    and ld0: "soa_rows (mLightData ?s1) = [zero_light_row]"
    and csd: "soa_capacity (mRenderableData ?s1) = max (soa_capacity (mRenderableData s)) ?c"
    and cld: "soa_capacity (mLightData ?s1) = max (soa_capacity (mLightData s)) ?c"
    using c
    by (auto simp add: prepare_sizing_def Let_def soa_clear_def soa_setCapacity_def soa_resize_def
          DIRECTIONAL_LIGHTS_COUNT_def max_def)
  have "length (soa_rows (mRenderableData ?s1)) + length entities \<le> soa_capacity (mRenderableData ?s1)"
    "length (soa_rows (mLightData ?s1)) + length entities \<le> soa_capacity (mLightData ?s1)"
    "1 \<le> length (soa_rows (mLightData ?s1))"
    using c by (simp_all add: sd0 ld0 csd cld)
  from gather_sizes [OF this, of eng W 0]
  obtain sd ld where g: "gather eng W 0 entities (mRenderableData ?s1, mLightData ?s1) = Inr (sd, ld)"
    and "length (soa_rows sd) = length (filter (is_renderable eng) entities)"
    and "length (soa_rows ld) = 1 + length (filter (is_local_light eng) entities)"
    and "soa_capacity sd = soa_capacity (mRenderableData ?s1)"
    and "soa_capacity ld = soa_capacity (mLightData ?s1)"
    by (auto simp add: sd0 ld0)
  moreover have "prepare eng W entities s = Inr (s\<lparr>mRenderableData := sd, mLightData := ld\<rparr>)"
    using g by (simp add: prepare_def Let_def prepare_sizing_def)
  ultimately show ?thesis
    by (intro exI [of _ sd] exI [of _ ld]) (simp add: csd cld)
qed

lemma length_filter_card:
  "distinct xs \<Longrightarrow> length (filter P xs) = card {x \<in> set xs. P x}"
  by (metis distinct_card distinct_filter set_filter)

text \<open>
  Claim C3. For every entity set (enumerated by the loop without repetition, and small
  enough for \<^verbatim>\<open>size_t\<close>), prepare succeeds; the renderable container then has one
  row per alive entity with both a renderable and a transform instance, and the light
  container has one row more than there are alive entities with a non-directional light
  instance. Dead entities and entities without component are not counted.
\<close>

theorem prepare_row_counts:
  assumes "iteration_of entities s" and "length entities + 16 < 2 ^ 64"
  shows "\<exists>s'. prepare eng W entities s = Inr s' \<and>
           soa_size (mRenderableData s') =
             card {e \<in> mEntities s. em_isAlive eng e \<and> rcm_getInstance eng e \<noteq> 0 \<and>
                                      tcm_getInstance eng e \<noteq> 0} \<and>
           soa_size (mLightData s') =
             1 + card {e \<in> mEntities s. em_isAlive eng e \<and> lcm_getInstance eng e \<noteq> 0 \<and>
                                      \<not> lcm_isDirectionalLight eng (lcm_getInstance eng e)}"
proof -
  from assms(1) have d: "distinct entities" and e: "set entities = mEntities s"
    by (simp_all add: iteration_of_def)
  from prepare_result [OF assms(2), of eng W s]
  obtain sd ld where "prepare eng W entities s = Inr (s\<lparr>mRenderableData := sd, mLightData := ld\<rparr>)"
    and "length (soa_rows sd) = length (filter (is_renderable eng) entities)"
    and "length (soa_rows ld) = 1 + length (filter (is_local_light eng) entities)"
    by blast
  then show ?thesis
    using d e by (simp add: soa_size_def length_filter_card is_renderable_def is_local_light_def)
qed

theorem prepare_row_counts_witness:
  "iteration_of demo_entities (demo_scene (set demo_entities) []) \<and>
   length demo_entities + 16 < 2 ^ 64 \<and>
   (\<exists>s'. prepare demo_engine identity4 demo_entities (demo_scene (set demo_entities) []) = Inr s' \<and>
      soa_size (mRenderableData s') = 1 \<and> soa_size (mLightData s') = 3)"
proof -
  have h1: "iteration_of demo_entities (demo_scene (set demo_entities) [])"
    by (simp add: iteration_of_def demo_entities_def demo_scene_def)
  have h2: "length demo_entities + 16 < 2 ^ 64"
    by (simp add: demo_entities_def)
  have r: "{e \<in> mEntities (demo_scene (set demo_entities) []).
             em_isAlive demo_engine e \<and> rcm_getInstance demo_engine e \<noteq> 0 \<and>
             tcm_getInstance demo_engine e \<noteq> 0} = {1}"
    by (auto simp add: demo_scene_def demo_entities_def demo_engine_def)
  have l: "{e \<in> mEntities (demo_scene (set demo_entities) []).
             em_isAlive demo_engine e \<and> lcm_getInstance demo_engine e \<noteq> 0 \<and>
             \<not> lcm_isDirectionalLight demo_engine (lcm_getInstance demo_engine e)} = {4, 5}"
    by (auto simp add: demo_scene_def demo_entities_def demo_engine_def)
  show ?thesis
    using h1 h2 prepare_row_counts [OF h1 h2, of demo_engine identity4]
    by (simp only: r l) (simp add: numeral_3_eq_3)
qed

text \<open>
  Claim C8. The capacity bound of prepare is the size of the entity set rounded up to a
  multiple of 16, plus one; after prepare both containers have at least this capacity
  and no less than before; right after the sizing step the light container holds
  exactly the cleared row 0.
\<close>

theorem prepare_capacity:
  assumes "iteration_of entities s" and "length entities + 16 < 2 ^ 64"
  shows "capacity_bound (length entities) = ((card (mEntities s) + 15) div 16) * 16 + 1 \<and>
         soa_rows (mLightData (prepare_sizing (capacity_bound (length entities)) s)) = [zero_light_row] \<and>
         soa_size (mLightData (prepare_sizing (capacity_bound (length entities)) s)) = 1 \<and>
         (\<exists>s'. prepare eng W entities s = Inr s' \<and>
            capacity_bound (length entities) \<le> soa_capacity (mRenderableData s') \<and>
            capacity_bound (length entities) \<le> soa_capacity (mLightData s') \<and>
            soa_capacity (mRenderableData s) \<le> soa_capacity (mRenderableData s') \<and>
            soa_capacity (mLightData s) \<le> soa_capacity (mLightData s'))"
proof -
  from assms(1) have "card (mEntities s) = length entities"
    by (metis iteration_of_def distinct_card)
  then have a: "capacity_bound (length entities) = ((card (mEntities s) + 15) div 16) * 16 + 1"
    using capacity_bound_eq [OF assms(2)] by simp
  have b: "soa_rows (mLightData (prepare_sizing (capacity_bound (length entities)) s)) = [zero_light_row]"
    by (simp add: prepare_sizing_def Let_def soa_clear_def soa_setCapacity_def soa_resize_def
          DIRECTIONAL_LIGHTS_COUNT_def)
  from prepare_result [OF assms(2), of eng W s]
  obtain sd ld where "prepare eng W entities s = Inr (s\<lparr>mRenderableData := sd, mLightData := ld\<rparr>)"
    and "soa_capacity sd = max (soa_capacity (mRenderableData s)) (capacity_bound (length entities))"
    and "soa_capacity ld = max (soa_capacity (mLightData s)) (capacity_bound (length entities))"
    by blast
  then have c: "\<exists>s'. prepare eng W entities s = Inr s' \<and>
            capacity_bound (length entities) \<le> soa_capacity (mRenderableData s') \<and>
            capacity_bound (length entities) \<le> soa_capacity (mLightData s') \<and>
            soa_capacity (mRenderableData s) \<le> soa_capacity (mRenderableData s') \<and>
            soa_capacity (mLightData s) \<le> soa_capacity (mLightData s')"
    by simp
  from a b c show ?thesis by (simp add: soa_size_def)
qed

theorem prepare_capacity_witness:
  "iteration_of demo_entities (demo_scene (set demo_entities) [demo_light 4 3, demo_light 5 1]) \<and>
   length demo_entities + 16 < 2 ^ 64 \<and>
   capacity_bound (length demo_entities) = 17 \<and>
   soa_rows (mLightData (prepare_sizing (capacity_bound (length demo_entities))
      (demo_scene (set demo_entities) [demo_light 4 3, demo_light 5 1]))) = [zero_light_row] \<and>
   (\<exists>s'. prepare demo_engine identity4 demo_entities
            (demo_scene (set demo_entities) [demo_light 4 3, demo_light 5 1]) = Inr s' \<and>
      17 \<le> soa_capacity (mRenderableData s') \<and> 17 \<le> soa_capacity (mLightData s'))"
proof -
  have h1: "iteration_of demo_entities (demo_scene (set demo_entities) [demo_light 4 3, demo_light 5 1])"
    by (simp add: iteration_of_def demo_entities_def demo_scene_def)
  have h2: "length demo_entities + 16 < 2 ^ 64"
    by (simp add: demo_entities_def)
  have c: "capacity_bound (length demo_entities) = 17"
    by (simp add: capacity_bound_def demo_entities_def)
  note t = prepare_capacity [OF h1 h2, of demo_engine identity4]
  show ?thesis
    using h1 h2 t [THEN conjunct2, THEN conjunct1]
      t [THEN conjunct2, THEN conjunct2, THEN conjunct2]
    by (simp only: c simp_thms) blast
qed


subsection \<open>prepareLights above the limit\<close>

text \<open>
  The truncation branch is entered when the container holds more than
  \<^verbatim>\<open>CONFIG_MAX_LIGHT_COUNT + 1\<close> rows. Its first loop stores a distance at every row
  index below the size of the container, in an array of \<^verbatim>\<open>CONFIG_MAX_LIGHT_COUNT\<close>
  elements: the indices \<open>K\<close> and \<open>K + 1\<close> are always among them, and both lie beyond the
  end of the array.
\<close>

lemma fill_distances_out_of_bounds:
  "i \<in> set is \<Longrightarrow> length distances \<le> i \<Longrightarrow>
   fill_distances position rows is distances = Inl DistancesOutOfBounds"
  by (induction "is" arbitrary: distances) auto

lemma fill_distances_error:
  "fill_distances position rows is distances = Inl err \<Longrightarrow> err = DistancesOutOfBounds"
  by (induction "is" arbitrary: distances) (auto split: if_splits)

lemma truncateLights_size:
  "truncateLights K position ld = Inr ld' \<Longrightarrow> soa_size ld' \<le> K + 1"
  by (auto simp add: truncateLights_def soa_resize_def soa_size_def DIRECTIONAL_LIGHTS_COUNT_def
        split: if_splits sum.splits)

lemma prepareLights_assertion_holds:
  "prepareLights K eng position s \<noteq> Inl AssertionFailed"
proof (cases "truncateLights K position (mLightData s)")
  case (Inl err)
  then have "err = DistancesOutOfBounds"
    by (auto simp add: truncateLights_def split: if_splits sum.splits dest: fill_distances_error)
  with Inl show ?thesis by (simp add: prepareLights_def)
next
  case (Inr ld')
  with truncateLights_size [OF Inr] show ?thesis by (simp add: prepareLights_def)
qed

text \<open>
  Claim C1. The claim describes the truncation: of \<open>n > k\<close> local lights the \<open>k\<close> nearest
  to the camera are retained, row 0 stays, and the length becomes \<open>k + 1\<close>. In the source
  the truncation branch never gets that far: for every container with more than
  \<open>K + 1\<close> rows, every camera position and every \<open>K\<close>, the distance loop writes beyond the
  end of \<^verbatim>\<open>distances\<close>, so that prepareLights has no defined result.
\<close>

theorem prepareLights_truncation_overflows:
  assumes "soa_size (mLightData s) > K + 1"
  shows "prepareLights K eng position s = Inl DistancesOutOfBounds"
proof -
  have "K + 1 \<in> set [DIRECTIONAL_LIGHTS_COUNT ..< soa_size (mLightData s)]"
    using assms by (simp add: DIRECTIONAL_LIGHTS_COUNT_def)
  moreover have "length (replicate K (None :: float option)) \<le> K + 1" by simp
  ultimately have "fill_distances position (soa_rows (mLightData s))
      [DIRECTIONAL_LIGHTS_COUNT ..< soa_size (mLightData s)] (replicate K None)
      = Inl DistancesOutOfBounds"
    by (rule fill_distances_out_of_bounds)
  then show ?thesis using assms
    by (simp add: prepareLights_def truncateLights_def DIRECTIONAL_LIGHTS_COUNT_def)
qed

theorem prepareLights_truncation_overflows_witness:
  "soa_size (mLightData (demo_scene {} [zero_light_row, demo_light 4 3, demo_light 5 1, demo_light 6 2])) > 2 + 1 \<and>
   prepareLights 2 demo_engine (0, 0, 0)
     (demo_scene {} [zero_light_row, demo_light 4 3, demo_light 5 1, demo_light 6 2])
   = Inl DistancesOutOfBounds"
proof -
  have h: "soa_size (mLightData (demo_scene {} [zero_light_row, demo_light 4 3, demo_light 5 1, demo_light 6 2])) > 2 + 1"
    by (simp add: demo_scene_def soa_size_def)
  show ?thesis
    using h prepareLights_truncation_overflows [OF h, of demo_engine "(0, 0, 0)"] by simp
qed

text \<open>
  Claim C9. The claim says that control reaches the assertion with a container of at
  most \<^verbatim>\<open>CONFIG_MAX_LIGHT_COUNT + 1\<close> rows for a container of any length. With a limit
  of one light and a container of three rows, the call ends in the out-of-bounds write
  of the distance loop, before the assertion. (By \<open>prepareLights_assertion_holds\<close> the
  assertion itself never fails.)
\<close>

theorem prepareLights_assertion_not_reached:
  "prepareLights 1 demo_engine (5, 0, 0)
     (demo_scene {} [zero_light_row, demo_light 4 3, demo_light 5 1])
   = Inl DistancesOutOfBounds"
  by (simp add: prepareLights_def truncateLights_def DIRECTIONAL_LIGHTS_COUNT_def
        demo_scene_def soa_size_def upt_rec)

subsection \<open>The truncation with room for every distance\<close>

text \<open>
  The rest of the truncation branch, seen on its own. With an array that has room for
  every row index, the distance loop succeeds and stores the distance of every local
  row; from such an array, the sort and the resize keep row 0 and \<open>K\<close> local rows, and no
  dropped row is nearer to the camera than a kept one.
\<close>

lemma sorted_take_drop_le:
  assumes "sorted (map f xs)" and "x \<in> set (take k xs)" and "y \<in> set (drop k xs)"
  shows "f x \<le> f y"
proof -
  have "sorted (map f (take k xs) @ map f (drop k xs))"
    using assms(1) by (simp only: map_append [symmetric] append_take_drop_id)
  then show ?thesis using assms(2,3) by (auto simp add: sorted_append)
qed

lemma sort_by_distance_sorted:
  assumes "\<forall>i. 1 \<le> i \<and> i < length rows \<longrightarrow>
             i < length distances \<and>
             distances ! i = Some (boundary_distance position (POSITION_RADIUS (rows ! i)))"
  shows "mset (drop 1 (sort_by_distance rows distances)) = mset (drop 1 rows)"
    and "sorted (map (\<lambda>r. boundary_distance position (POSITION_RADIUS r))
                  (drop 1 (sort_by_distance rows distances)))"
    and "take 1 (sort_by_distance rows distances) = take 1 rows"
proof -
  let ?d = "\<lambda>r. boundary_distance position (POSITION_RADIUS r)"
  let ?xs = "drop 1 rows"
  let ?ys = "drop 1 distances"
  have z: "zip ?xs ?ys = map (\<lambda>r. (r, Some (?d r))) ?xs"
  proof (rule nth_equalityI)
    show len: "length (zip ?xs ?ys) = length (map (\<lambda>r. (r, Some (?d r))) ?xs)"
    proof (cases "length rows \<le> 1")
      case True
      then show ?thesis by simp
    next
      case False
      then have "1 \<le> length rows - 1 \<and> length rows - 1 < length rows" by arith
      with assms have "length rows - 1 < length distances" by blast
      then show ?thesis by simp
    qed
    fix i assume "i < length (zip ?xs ?ys)"
    then have i: "i < length ?xs" "i < length ?ys" by simp_all
    then have "1 \<le> Suc i \<and> Suc i < length rows" by simp
    with assms have "distances ! Suc i = Some (?d (rows ! Suc i))" by blast
    then show "zip ?xs ?ys ! i = map (\<lambda>r. (r, Some (?d r))) ?xs ! i"
      using i by simp
  qed
  let ?zs = "sort_key (\<lambda>p. the (snd p)) (zip ?xs ?ys)"
  have keys: "map (\<lambda>p. the (snd p)) ?zs = map ?d (map fst ?zs)"
  proof -
    have "set ?zs = set (map (\<lambda>r. (r, Some (?d r))) ?xs)"
      by (simp only: set_sort z)
    then have "\<forall>p \<in> set ?zs. the (snd p) = ?d (fst p)"
      by auto
    then show ?thesis by simp
  qed
  have tail: "drop 1 (sort_by_distance rows distances) = map fst ?zs"
    by (cases rows) (simp_all add: sort_by_distance_def DIRECTIONAL_LIGHTS_COUNT_def)
  have "mset (map fst ?zs) = image_mset fst (mset (zip ?xs ?ys))"
    by simp
  also have "\<dots> = mset ?xs"
    by (simp only: z mset_map image_mset.compositionality) (simp add: comp_def)
  finally show "mset (drop 1 (sort_by_distance rows distances)) = mset (drop 1 rows)"
    by (simp only: tail)
  have "sorted (map (\<lambda>p. the (snd p)) ?zs)" by (rule sorted_sort_key)
  then show "sorted (map ?d (drop 1 (sort_by_distance rows distances)))"
    by (simp only: keys tail)
  show "take 1 (sort_by_distance rows distances) = take 1 rows"
    by (cases rows) (simp_all add: sort_by_distance_def DIRECTIONAL_LIGHTS_COUNT_def)
qed

lemma truncation_keeps_nearest:
  assumes "\<forall>i. 1 \<le> i \<and> i < length rows \<longrightarrow>
             i < length distances \<and>
             distances ! i = Some (boundary_distance position (POSITION_RADIUS (rows ! i)))"
    and "K + 1 < length rows"
    and "rows' = soa_rows (soa_resize zero_light_row (min (length rows) (K + DIRECTIONAL_LIGHTS_COUNT))
                   (ld\<lparr>soa_rows := sort_by_distance rows distances\<rparr>))"
  shows "length rows' = K + 1"
    and "rows' ! 0 = rows ! 0"
    and "mset (drop 1 rows') \<subseteq># mset (drop 1 rows)"
    and "\<forall>kept \<in> set (drop 1 rows'). \<forall>dropped \<in># mset (drop 1 rows) - mset (drop 1 rows').
           boundary_distance position (POSITION_RADIUS kept)
             \<le> boundary_distance position (POSITION_RADIUS dropped)"
proof -
  let ?d = "\<lambda>r. boundary_distance position (POSITION_RADIUS r)"
  let ?s = "sort_by_distance rows distances"
  note s = sort_by_distance_sorted [OF assms(1)]
  have "size (mset (drop 1 ?s)) = size (mset (drop 1 rows))" by (simp only: s(1))
  then have len: "length ?s = length rows"
    using s(3) assms(2) by (cases ?s; cases rows) simp_all
  have r: "rows' = take (K + 1) ?s"
    using assms(2) len by (simp add: assms(3) soa_resize_def DIRECTIONAL_LIGHTS_COUNT_def)
  show "length rows' = K + 1" using assms(2) len by (simp add: r)
  show "rows' ! 0 = rows ! 0"
    using s(3) assms(2) len by (cases ?s; cases rows) (simp_all add: r)
  have d: "drop 1 rows' = take K (drop 1 ?s)"
    by (simp add: r drop_take)
  have split: "mset (drop 1 rows) = mset (take K (drop 1 ?s)) + mset (drop K (drop 1 ?s))"
    by (simp only: s(1) [symmetric] union_code append_take_drop_id)
  show "mset (drop 1 rows') \<subseteq># mset (drop 1 rows)"
    by (simp only: d split) simp
  have rest: "mset (drop 1 rows) - mset (drop 1 rows') = mset (drop K (drop 1 ?s))"
    by (simp only: d split) simp
  show "\<forall>kept \<in> set (drop 1 rows'). \<forall>dropped \<in># mset (drop 1 rows) - mset (drop 1 rows').
           ?d kept \<le> ?d dropped"
  proof -
    have "\<forall>kept \<in> set (take K (drop 1 ?s)). \<forall>dropped \<in> set (drop K (drop 1 ?s)).
            ?d kept \<le> ?d dropped"
      using sorted_take_drop_le [OF s(2)] by blast
    moreover have "set (drop 1 rows') = set (take K (drop 1 ?s))" by (simp only: d)
    moreover have "set_mset (mset (drop 1 rows) - mset (drop 1 rows')) = set (drop K (drop 1 ?s))"
      by (simp only: rest set_mset_mset)
    ultimately show ?thesis by (simp only:)
  qed
qed


lemma fill_distances_with_room:
  assumes "\<forall>i \<in> set is. i < length distances"
  shows "\<exists>ds. fill_distances position rows is distances = Inr ds \<and>
           length ds = length distances \<and>
           (\<forall>i \<in> set is. ds ! i = Some (boundary_distance position (POSITION_RADIUS (rows ! i)))) \<and>
           (\<forall>j. j \<notin> set is \<longrightarrow> ds ! j = distances ! j)"
  using assms
proof (induction "is" arbitrary: distances)
  case Nil
  then show ?case by simp
next
  case (Cons k ks)
  let ?v = "Some (boundary_distance position (POSITION_RADIUS (rows ! k)))"
  let ?d1 = "distances[k := ?v]"
  have "\<forall>i \<in> set ks. i < length ?d1" using Cons.prems by simp
  from Cons.IH [OF this] obtain ds
    where r: "fill_distances position rows ks ?d1 = Inr ds"
      and l: "length ds = length ?d1"
      and w: "\<forall>i \<in> set ks. ds ! i = Some (boundary_distance position (POSITION_RADIUS (rows ! i)))"
      and u: "\<forall>j. j \<notin> set ks \<longrightarrow> ds ! j = ?d1 ! j"
    by blast
  have k: "k < length distances" using Cons.prems by simp
  have "ds ! k = ?v"
  proof (cases "k \<in> set ks")
    case True
    with w show ?thesis by blast
  next
    case False
    with u k show ?thesis by simp
  qed
  with r l w u k show ?case by auto
qed

subsection \<open>The operations issued on the GPU light buffer\<close>

lemma write_lights_ops:
  "gpu_ops (write_lights eng rows is gpu) =
     gpu_ops gpu @ map (\<lambda>i. SlotWrite (i - DIRECTIONAL_LIGHTS_COUNT)) is"
  by (induction "is" arbitrary: gpu) (simp_all add: gpu_write_def)

lemma write_lights_other_slot:
  "\<forall>i \<in> set is. i - DIRECTIONAL_LIGHTS_COUNT \<noteq> j \<Longrightarrow>
   gpu_slots (write_lights eng rows is gpu) j = gpu_slots gpu j"
  by (induction "is" arbitrary: gpu) (simp_all add: gpu_write_def)

lemma write_lights_slot:
  assumes "distinct is" and "\<forall>i \<in> set is. DIRECTIONAL_LIGHTS_COUNT \<le> i" and "i \<in> set is"
  shows "gpu_slots (write_lights eng rows is gpu) (i - DIRECTIONAL_LIGHTS_COUNT) =
           pack_light eng (rows ! i) (gpu_slots gpu (i - DIRECTIONAL_LIGHTS_COUNT))"
  using assms
proof (induction "is" arbitrary: gpu)
  case Nil
  then show ?case by simp
next
  case (Cons k ks)
  show ?case
  proof (cases "i = k")
    case True
    have "\<forall>j \<in> set ks. j - DIRECTIONAL_LIGHTS_COUNT \<noteq> k - DIRECTIONAL_LIGHTS_COUNT"
    proof
      fix j assume j: "j \<in> set ks"
      then have "j \<noteq> k" "1 \<le> j" "1 \<le> k"
        using Cons.prems by (auto simp add: DIRECTIONAL_LIGHTS_COUNT_def)
      then show "j - DIRECTIONAL_LIGHTS_COUNT \<noteq> k - DIRECTIONAL_LIGHTS_COUNT"
        unfolding DIRECTIONAL_LIGHTS_COUNT_def by arith
    qed
    then show ?thesis
      using True by (simp add: write_lights_other_slot gpu_write_def)
  next
    case False
    then have "i \<in> set ks" using Cons.prems by simp
    moreover have "1 \<le> i" "1 \<le> k"
      using Cons.prems by (auto simp add: DIRECTIONAL_LIGHTS_COUNT_def)
    then have "i - DIRECTIONAL_LIGHTS_COUNT \<noteq> k - DIRECTIONAL_LIGHTS_COUNT"
      using False unfolding DIRECTIONAL_LIGHTS_COUNT_def by arith
    ultimately show ?thesis
      using Cons.IH [of "gpu_write (k - DIRECTIONAL_LIGHTS_COUNT) (pack_light eng (rows ! k)) gpu"]
        Cons.prems
      by (simp add: gpu_write_def)
  qed
qed

lemma map_pred_upt: "map (\<lambda>i. f (i - 1)) [1 ..< n] = map f [0 ..< n - 1]"
proof (cases n)
  case 0
  then show ?thesis by simp
next
  case (Suc m)
  have "[1 ..< Suc m] = map Suc [0 ..< m]"
    by (simp only: map_Suc_upt One_nat_def)
  then show ?thesis using Suc by (simp add: comp_def)
qed

lemma prepareLights_succeeds:
  assumes "soa_size (mLightData s) \<le> K + 1"
  shows "\<exists>s'. prepareLights K eng position s = Inr s' \<and> mLightData s' = mLightData s"
  using assms
  by (simp add: prepareLights_def truncateLights_def DIRECTIONAL_LIGHTS_COUNT_def)

text \<open>
  Claim C5. Whenever prepareLights succeeds on a container of \<open>n\<close> rows, the operations
  it issues on the GPU light buffer are, in this order: one write to each of the slots
  \<open>0, \<dots>, n - 2\<close>, where slot \<open>i - 1\<close> receives the packed parameters of row \<open>i\<close> (row 0
  is written nowhere); one \<^verbatim>\<open>invalidate(0, n)\<close>; one commit. The slots written are
  \<open>{0..<n - 1}\<close>, the range marked dirty is \<open>{0..<n}\<close>: the dirty range is one slot
  longer than the written range.
\<close>

theorem prepareLights_gpu_protocol:
  assumes "prepareLights K eng position s = Inr s'"
  shows "gpu_ops (mGpuLightData s') =
           gpu_ops (mGpuLightData s) @ map SlotWrite [0 ..< soa_size (mLightData s') - 1]
             @ [Invalidate 0 (soa_size (mLightData s')), Commit] \<and>
         (\<forall>i. 1 \<le> i \<and> i < soa_size (mLightData s') \<longrightarrow>
            gpu_slots (mGpuLightData s') (i - 1) =
              pack_light eng (soa_rows (mLightData s') ! i) (gpu_slots (mGpuLightData s) (i - 1))) \<and>
         written_slots (map SlotWrite [0 ..< soa_size (mLightData s') - 1])
           = {0 ..< soa_size (mLightData s') - 1} \<and>
         dirty_range (Invalidate 0 (soa_size (mLightData s'))) = {0 ..< soa_size (mLightData s')}"
proof -
  obtain ld where t: "truncateLights K position (mLightData s) = Inr ld"
    and s': "s' = s\<lparr>mLightData := ld,
               mGpuLightData := gpu_commit (gpu_invalidate 0 (soa_size ld)
                 (write_lights eng (soa_rows ld) [DIRECTIONAL_LIGHTS_COUNT ..< soa_size ld]
                    (mGpuLightData s)))\<rparr>"
    using assms by (auto simp add: prepareLights_def split: sum.splits if_splits)
  have ops: "gpu_ops (mGpuLightData s') =
      gpu_ops (mGpuLightData s) @ map SlotWrite [0 ..< soa_size ld - 1] @ [Invalidate 0 (soa_size ld), Commit]"
    using map_pred_upt [of SlotWrite "soa_size ld"]
    by (simp add: s' gpu_commit_def gpu_invalidate_def write_lights_ops DIRECTIONAL_LIGHTS_COUNT_def)
  have slots: "gpu_slots (mGpuLightData s') (i - 1) =
      pack_light eng (soa_rows ld ! i) (gpu_slots (mGpuLightData s) (i - 1))"
    if "1 \<le> i" "i < soa_size ld" for i
    using that write_lights_slot [of "[DIRECTIONAL_LIGHTS_COUNT ..< soa_size ld]" i eng "soa_rows ld" "mGpuLightData s"]
    by (simp add: s' gpu_commit_def gpu_invalidate_def DIRECTIONAL_LIGHTS_COUNT_def)
  have w: "written_slots (map SlotWrite [0 ..< soa_size ld - 1]) = {0 ..< soa_size ld - 1}"
    by (auto simp add: written_slots_def)
  have d: "dirty_range (Invalidate 0 (soa_size ld)) = {0 ..< soa_size ld}"
    by (simp add: dirty_range_def)
  have "mLightData s' = ld" by (simp add: s')
  with ops slots w d show ?thesis by simp
qed

theorem prepareLights_gpu_protocol_witness:
  "\<exists>s'. prepareLights 2 demo_engine (0, 0, 0)
           (demo_scene {} [zero_light_row, demo_light 4 3, demo_light 5 1]) = Inr s' \<and>
     gpu_ops (mGpuLightData s') = [SlotWrite 0, SlotWrite 1, Invalidate 0 3, Commit] \<and>
     written_slots (map SlotWrite [0 ..< 2]) = {0 ..< 2} \<and>
     dirty_range (Invalidate 0 3) = {0 ..< 3}"
proof -
  let ?s = "demo_scene {} [zero_light_row, demo_light 4 3, demo_light 5 1]"
  have "soa_size (mLightData ?s) \<le> 2 + 1"
    by (simp add: demo_scene_def soa_size_def)
  from prepareLights_succeeds [OF this, of demo_engine "(0, 0, 0)"]
  obtain s' where h: "prepareLights 2 demo_engine (0, 0, 0) ?s = Inr s'"
    and l: "mLightData s' = mLightData ?s"
    by blast
  have n: "soa_size (mLightData s') = 3"
    by (simp add: l demo_scene_def soa_size_def)
  have g: "gpu_ops (mGpuLightData ?s) = []"
    by (simp add: demo_scene_def demo_gpu_def)
  note t = prepareLights_gpu_protocol [OF h]
  have "gpu_ops (mGpuLightData s') = [SlotWrite 0, SlotWrite 1, Invalidate 0 3, Commit]"
    using t [THEN conjunct1] by (simp add: n g upt_rec)
  moreover have "written_slots (map SlotWrite [0 ..< 2]) = {0 ..< 2}"
    using t [THEN conjunct2, THEN conjunct2, THEN conjunct1] by (simp add: n)
  moreover have "dirty_range (Invalidate 0 3) = {0 ..< 3}"
    using t [THEN conjunct2, THEN conjunct2, THEN conjunct2] by (simp add: n)
  ultimately show ?thesis using h by blast
qed


subsection \<open>The rows gathered by prepare\<close>

text \<open>
  The loop appends one row per local light, in the order of the iteration, and rewrites
  row 0 at every directional light that passes the comparison with \<open>maxIntensity\<close>; that
  variable keeps its initial value, so row 0 ends up holding the last such light.
\<close>

lemma gather_entity_rows:
  assumes "1 \<le> length (soa_rows ld)"
    and "gather_entity eng W mx e (sd, ld) = Inr (sd1, ld1)"
  shows "drop 1 (soa_rows ld1) =
           drop 1 (soa_rows ld) @
           (if is_local_light eng e
            then [local_light_row eng (lcm_getInstance eng e) (world_transform_of eng W e)]
            else [])"
    and "1 \<le> length (soa_rows ld1)"
    and "soa_rows ld1 ! 0 =
           (if is_dominant eng mx e
            then directional_light_row eng (lcm_getInstance eng e) (world_transform_of eng W e)
                   (soa_rows ld ! 0)
            else soa_rows ld ! 0)"
proof -
  from assms(1) obtain r0 rs where ld: "soa_rows ld = r0 # rs"
    by (cases "soa_rows ld") auto
  note defs = gather_entity_def is_local_light_def is_dominant_def world_transform_of_def
    Let_def soa_push_back_unsafe_def soa_update_def
  show "drop 1 (soa_rows ld1) =
           drop 1 (soa_rows ld) @
           (if is_local_light eng e
            then [local_light_row eng (lcm_getInstance eng e) (world_transform_of eng W e)]
            else [])"
    using assms(2) ld by (auto simp add: defs split: if_splits sum.splits)
  show "1 \<le> length (soa_rows ld1)"
    using assms(2) ld by (auto simp add: defs split: if_splits sum.splits)
  show "soa_rows ld1 ! 0 =
           (if is_dominant eng mx e
            then directional_light_row eng (lcm_getInstance eng e) (world_transform_of eng W e)
                   (soa_rows ld ! 0)
            else soa_rows ld ! 0)"
    using assms(2) ld by (auto simp add: defs split: if_splits sum.splits)
qed

lemma gather_local_rows:
  assumes "1 \<le> length (soa_rows ld)"
    and "gather eng W mx es (sd, ld) = Inr (sd', ld')"
  shows "drop 1 (soa_rows ld') =
           drop 1 (soa_rows ld) @
           map (\<lambda>e. local_light_row eng (lcm_getInstance eng e) (world_transform_of eng W e))
             (filter (is_local_light eng) es)"
  using assms
proof (induction es arbitrary: sd ld)
  case Nil
  then show ?case by simp
next
  case (Cons e es)
  from Cons.prems(2) obtain sd1 ld1
    where step: "gather_entity eng W mx e (sd, ld) = Inr (sd1, ld1)"
      and rest: "gather eng W mx es (sd1, ld1) = Inr (sd', ld')"
    by (auto split: sum.splits)
  note r = gather_entity_rows [OF Cons.prems(1) step]
  from Cons.IH [OF r(2) rest] r(1) show ?case by simp
qed

lemma gather_directional_row:
  assumes "1 \<le> length (soa_rows ld)"
    and "gather eng W mx es (sd, ld) = Inr (sd', ld')"
  shows "LIGHT_INSTANCE (soa_rows ld' ! 0) =
           (case rev (filter (is_dominant eng mx) es) of
              [] \<Rightarrow> LIGHT_INSTANCE (soa_rows ld ! 0)
            | e # _ \<Rightarrow> lcm_getInstance eng e)"
  using assms
proof (induction es arbitrary: sd ld)
  case Nil
  then show ?case by simp
next
  case (Cons e es)
  from Cons.prems(2) obtain sd1 ld1
    where step: "gather_entity eng W mx e (sd, ld) = Inr (sd1, ld1)"
      and rest: "gather eng W mx es (sd1, ld1) = Inr (sd', ld')"
    by (auto split: sum.splits)
  note r = gather_entity_rows [OF Cons.prems(1) step]
  from Cons.IH [OF r(2) rest] r(3) show ?case
    by (auto simp add: directional_light_row_def split: list.splits)
qed

lemma prepare_lights_rows:
  assumes "prepare eng W entities s = Inr s'"
  shows "drop 1 (soa_rows (mLightData s')) =
           map (\<lambda>e. local_light_row eng (lcm_getInstance eng e) (world_transform_of eng W e))
             (filter (is_local_light eng) entities)"
    and "LIGHT_INSTANCE (soa_rows (mLightData s') ! 0) =
           (case rev (filter (is_dominant eng 0) entities) of
              [] \<Rightarrow> 0
            | e # _ \<Rightarrow> lcm_getInstance eng e)"
proof -
  let ?s1 = "prepare_sizing (capacity_bound (length entities)) s"
  have ld0: "soa_rows (mLightData ?s1) = [zero_light_row]"
    by (simp add: prepare_sizing_def Let_def soa_clear_def soa_setCapacity_def soa_resize_def
          DIRECTIONAL_LIGHTS_COUNT_def)
  then have one: "1 \<le> length (soa_rows (mLightData ?s1))" by simp
  from assms obtain sd ld
    where g: "gather eng W 0 entities (mRenderableData ?s1, mLightData ?s1) = Inr (sd, ld)"
      and s': "s' = ?s1\<lparr>mRenderableData := sd, mLightData := ld\<rparr>"
    by (auto simp add: prepare_def Let_def split: sum.splits)
  show "drop 1 (soa_rows (mLightData s')) =
           map (\<lambda>e. local_light_row eng (lcm_getInstance eng e) (world_transform_of eng W e))
             (filter (is_local_light eng) entities)"
    using gather_local_rows [OF one g] by (simp add: s' ld0)
  show "LIGHT_INSTANCE (soa_rows (mLightData s') ! 0) =
           (case rev (filter (is_dominant eng 0) entities) of
              [] \<Rightarrow> 0
            | e # _ \<Rightarrow> lcm_getInstance eng e)"
    using gather_directional_row [OF one g]
    by (simp add: s' ld0 zero_light_row_def split: list.splits)
qed

text \<open>
  The direction stored for a local light: the zero vector for a point light without IES
  profile, and otherwise whatever \<^verbatim>\<open>normalize\<close> returns on the local direction
  transformed by the transpose of the \<^verbatim>\<open>inverse\<close> of the upper-left 3x3 block.
\<close>

lemma local_light_row_direction:
  "DIRECTION (local_light_row eng li wt) =
     (if \<not> lcm_isPointLight eng li \<or> lcm_isIESLight eng li
      then world_direction eng wt (lcm_getLocalDirection eng li) else zero3)"
  by (simp add: local_light_row_def Let_def split: prod.splits)

lemma local_light_row_instance:
  "LIGHT_INSTANCE (local_light_row eng li wt) = li"
  by (simp add: local_light_row_def Let_def split: prod.splits)

text \<open>
  Claim C2. The claim says that among several directional lights the one of maximal
  intensity is retained, whatever the iteration order. With the directional lights 2
  (intensity 10) and 3 (intensity 5), prepare retains light 3 when the iteration visits
  2 before 3, and light 2 when it visits 3 before 2: the light retained is the last one
  visited, not the brightest.
\<close>

theorem prepare_directional_last_wins:
  "lcm_getIntensity demo_engine 3 < lcm_getIntensity demo_engine 2 \<and>
   LIGHT_INSTANCE (result_lights (prepare demo_engine identity4 [2, 3] (demo_scene {2, 3} [])) ! 0) = 3 \<and>
   LIGHT_INSTANCE (result_lights (prepare demo_engine identity4 [3, 2] (demo_scene {2, 3} [])) ! 0) = 2"
  by (simp add: prepare_def prepare_sizing_def gather_entity_def capacity_bound_def Let_def
        soa_clear_def soa_setCapacity_def soa_resize_def soa_push_back_unsafe_def soa_update_def
        DIRECTIONAL_LIGHTS_COUNT_def demo_scene_def demo_engine_def directional_light_row_def
        result_lights_def)

subsection \<open>computeBounds\<close>

lemma min3_left_commute: "min3 (min3 m a) b = min3 (min3 m b) a"
  by (cases m, cases a, cases b) (simp add: min.commute min.left_commute)

lemma max3_left_commute: "max3 (max3 m a) b = max3 (max3 m b) a"
  by (cases m, cases a, cases b) (simp add: max.commute max.left_commute)

lemma expand_commute: "expand (expand box a) b = expand (expand box b) a"
proof -
  have "min3 (min3 (aabb_min box) (aabb_min a)) (aabb_min b)
          = min3 (min3 (aabb_min box) (aabb_min b)) (aabb_min a)"
    "max3 (max3 (aabb_max box) (aabb_max a)) (aabb_max b)
          = max3 (max3 (aabb_max box) (aabb_max b)) (aabb_max a)"
    by (rule min3_left_commute, rule max3_left_commute)
  then show ?thesis by (simp add: expand_def)
qed

lemma computeBounds_row_commute:
  "computeBounds_row v a (computeBounds_row v b boxes) =
   computeBounds_row v b (computeBounds_row v a boxes)"
proof -
  obtain c r where boxes: "boxes = (c, r)" by (cases boxes)
  let ?A = "\<lparr>aabb_min = sub3 (WORLD_AABB_CENTER a) (WORLD_AABB_EXTENT a),
             aabb_max = add3 (WORLD_AABB_CENTER a) (WORLD_AABB_EXTENT a)\<rparr>"
  let ?B = "\<lparr>aabb_min = sub3 (WORLD_AABB_CENTER b) (WORLD_AABB_EXTENT b),
             aabb_max = add3 (WORLD_AABB_CENTER b) (WORLD_AABB_EXTENT b)\<rparr>"
  have "expand (expand c ?B) ?A = expand (expand c ?A) ?B"
    "expand (expand r ?B) ?A = expand (expand r ?A) ?B"
    by (rule expand_commute)+
  then show ?thesis
    by (simp add: computeBounds_row_def Let_def boxes)
qed

lemma computeBounds_loop_fold:
  "computeBounds_loop v rows boxes = fold (computeBounds_row v) rows boxes"
  by (induction rows arbitrary: boxes) simp_all

lemma computeBounds_loop_permuted:
  assumes "mset rows = mset rows'"
  shows "computeBounds_loop v rows boxes = computeBounds_loop v rows' boxes"
proof -
  have "fold (computeBounds_row v) rows = fold (computeBounds_row v) rows'"
    using assms by (rule fold_multiset_equiv [rotated]) (simp add: fun_eq_iff computeBounds_row_commute)
  then show ?thesis by (simp add: computeBounds_loop_fold)
qed

lemma computeBounds_row_invisible:
  "ucast (LAYERS row) AND v = 0 \<Longrightarrow> computeBounds_row v row boxes = boxes"
  by (cases boxes) (simp add: computeBounds_row_def)

lemma computeBounds_loop_append:
  "computeBounds_loop v (xs @ ys) boxes = computeBounds_loop v ys (computeBounds_loop v xs boxes)"
  by (induction xs arbitrary: boxes) simp_all

lemma computeBounds_loop_none:
  "\<forall>row \<in> set rows. ucast (LAYERS row) AND v = 0 \<Longrightarrow> computeBounds_loop v rows boxes = boxes"
  by (induction rows arbitrary: boxes) (simp_all add: computeBounds_row_invisible)

text \<open>
  Claim C6. The boxes computed by computeBounds do not depend on the order of the rows;
  a row whose layers do not intersect \<open>visibleLayers\<close> can be removed without changing
  either box; and when no row intersects \<open>visibleLayers\<close> both boxes keep their initial
  value.
\<close>

theorem computeBounds_reduction:
  "(\<forall>rows'. mset rows' = mset (soa_rows (mRenderableData s)) \<longrightarrow>
      computeBounds (s\<lparr>mRenderableData := (mRenderableData s)\<lparr>soa_rows := rows'\<rparr>\<rparr>) boxes v
        = computeBounds s boxes v) \<and>
   (\<forall>xs row ys. soa_rows (mRenderableData s) = xs @ row # ys \<and> ucast (LAYERS row) AND v = 0 \<longrightarrow>
      computeBounds s boxes v
        = computeBounds (s\<lparr>mRenderableData := (mRenderableData s)\<lparr>soa_rows := xs @ ys\<rparr>\<rparr>) boxes v) \<and>
   ((\<forall>row \<in> set (soa_rows (mRenderableData s)). ucast (LAYERS row) AND v = 0) \<longrightarrow>
      computeBounds s boxes v = boxes)"
proof (intro conjI allI impI)
  fix rows'
  assume "mset rows' = mset (soa_rows (mRenderableData s))"
  then have "computeBounds_loop v rows' boxes
        = computeBounds_loop v (soa_rows (mRenderableData s)) boxes"
    by (rule computeBounds_loop_permuted)
  then show "computeBounds (s\<lparr>mRenderableData := (mRenderableData s)\<lparr>soa_rows := rows'\<rparr>\<rparr>) boxes v
        = computeBounds s boxes v"
    by (simp add: computeBounds_def)
next
  fix xs row ys
  assume "soa_rows (mRenderableData s) = xs @ row # ys \<and> ucast (LAYERS row) AND v = 0"
  then show "computeBounds s boxes v
        = computeBounds (s\<lparr>mRenderableData := (mRenderableData s)\<lparr>soa_rows := xs @ ys\<rparr>\<rparr>) boxes v"
    by (simp add: computeBounds_def computeBounds_loop_append computeBounds_row_invisible)
next
  assume "\<forall>row \<in> set (soa_rows (mRenderableData s)). ucast (LAYERS row) AND v = 0"
  then show "computeBounds s boxes v = boxes"
    by (simp add: computeBounds_def computeBounds_loop_none)
qed

theorem computeBounds_reduction_witness:
  "mset [demo_renderable 3 7, demo_renderable 2 50, demo_renderable 1 2]
     = mset (soa_rows (mRenderableData
         (demo_renderables [demo_renderable 1 2, demo_renderable 2 50, demo_renderable 3 7]))) \<and>
   computeBounds (demo_renderables [demo_renderable 3 7, demo_renderable 2 50, demo_renderable 1 2])
       demo_boxes 1
     = computeBounds (demo_renderables [demo_renderable 1 2, demo_renderable 2 50, demo_renderable 3 7])
         demo_boxes 1 \<and>
   ucast (LAYERS (demo_renderable 2 50)) AND (1 :: 32 word) = 0 \<and>
   computeBounds (demo_renderables [demo_renderable 1 2, demo_renderable 2 50, demo_renderable 3 7])
       demo_boxes 1
     = computeBounds (demo_renderables [demo_renderable 1 2, demo_renderable 3 7]) demo_boxes 1 \<and>
   computeBounds (demo_renderables [demo_renderable 2 50]) demo_boxes 1 = demo_boxes"
proof -
  let ?s = "demo_renderables [demo_renderable 1 2, demo_renderable 2 50, demo_renderable 3 7]"
  have rows: "soa_rows (mRenderableData ?s)
                = [demo_renderable 1 2] @ demo_renderable 2 50 # [demo_renderable 3 7]"
    by (simp add: demo_renderables_def)
  have p: "mset [demo_renderable 3 7, demo_renderable 2 50, demo_renderable 1 2]
             = mset (soa_rows (mRenderableData ?s))"
    by (simp add: demo_renderables_def)
  have h: "ucast (LAYERS (demo_renderable 2 50)) AND (1 :: 32 word) = 0"
    by (simp add: demo_renderable_def)
  have upd: "?s\<lparr>mRenderableData := (mRenderableData ?s)\<lparr>soa_rows := rows'\<rparr>\<rparr> = demo_renderables rows'"
    for rows'
    by (simp add: demo_renderables_def)
  note t = computeBounds_reduction [of ?s demo_boxes 1]
  have a: "computeBounds (demo_renderables [demo_renderable 3 7, demo_renderable 2 50, demo_renderable 1 2])
       demo_boxes 1 = computeBounds ?s demo_boxes 1"
    using t [THEN conjunct1, THEN spec, THEN mp, OF p] by (simp only: upd)
  have b: "computeBounds ?s demo_boxes 1
     = computeBounds (demo_renderables [demo_renderable 1 2, demo_renderable 3 7]) demo_boxes 1"
    using t [THEN conjunct2, THEN conjunct1, THEN spec, THEN spec, THEN spec, THEN mp,
             OF conjI, OF rows h]
    by (simp only: upd append.simps)
  let ?s2 = "demo_renderables [demo_renderable 2 50]"
  have "\<forall>row \<in> set (soa_rows (mRenderableData ?s2)). ucast (LAYERS row) AND (1 :: 32 word) = 0"
    by (simp add: demo_renderables_def h)
  then have c: "computeBounds ?s2 demo_boxes 1 = demo_boxes"
    by (rule computeBounds_reduction [of ?s2 demo_boxes 1, THEN conjunct2, THEN conjunct2, THEN mp])
  from p a h b c show ?thesis by (intro conjI)
qed

subsection \<open>setSkybox\<close>

lemma setSkybox_entities:
  "mEntities (setSkybox skybox s) =
     (mEntities s - (case mSkybox s of None \<Rightarrow> {} | Some k \<Rightarrow> {getEntity k}))
       \<union> (case skybox of None \<Rightarrow> {} | Some k \<Rightarrow> {getEntity k})"
  and "mSkybox (setSkybox skybox s) = skybox"
  by (auto simp add: setSkybox_def Let_def addEntity_def remove_def split: option.splits)

text \<open>
  Claim C7, as stated, at a scene without skybox of which entity 8 is already a member
  and a skybox whose entity is 8: after setting and unsetting the skybox, entity 8 is
  no longer a member.
\<close>

theorem setSkybox_round_trip_counterexample:
  "mSkybox (demo_scene {8} []) = None \<and>
   mEntities (setSkybox None (setSkybox (Some \<lparr>getEntity = 8\<rparr>) (demo_scene {8} [])))
     \<noteq> mEntities (demo_scene {8} [])"
  by (simp add: setSkybox_def Let_def addEntity_def remove_def demo_scene_def)

text \<open>
  Claim C7, amended. In a scene without skybox, setting a skybox whose entity is not yet
  a member and then unsetting it gives back the set of members. Every call of setSkybox
  removes the entity of the skybox registered before (if any), adds the entity of the
  new one (if any) and registers the new one; hence, if before the call the only skybox
  entity among the members is that of the registered skybox, the same holds after it.
\<close>

theorem setSkybox_membership:
  "(mSkybox s = None \<and> getEntity A \<notin> mEntities s \<longrightarrow>
      mEntities (setSkybox None (setSkybox (Some A) s)) = mEntities s) \<and>
   mEntities (setSkybox skybox s) =
     (mEntities s - (case mSkybox s of None \<Rightarrow> {} | Some k \<Rightarrow> {getEntity k}))
       \<union> (case skybox of None \<Rightarrow> {} | Some k \<Rightarrow> {getEntity k}) \<and>
   mSkybox (setSkybox skybox s) = skybox \<and>
   (skybox_entities_registered skyboxes s \<and> (\<forall>k. skybox = Some k \<longrightarrow> k \<in> skyboxes) \<longrightarrow>
      skybox_entities_registered skyboxes (setSkybox skybox s))"
  by (auto simp add: setSkybox_def Let_def addEntity_def remove_def skybox_entities_registered_def
        split: option.splits)

theorem setSkybox_membership_witness:
  "mSkybox (demo_scene {1, 2} []) = None \<and> getEntity \<lparr>getEntity = 8\<rparr> \<notin> mEntities (demo_scene {1, 2} []) \<and>
   mEntities (setSkybox None (setSkybox (Some \<lparr>getEntity = 8\<rparr>) (demo_scene {1, 2} [])))
     = mEntities (demo_scene {1, 2} []) \<and>
   mEntities (setSkybox (Some \<lparr>getEntity = 8\<rparr>) (demo_scene {1, 2} [])) = {1, 2, 8} \<and>
   skybox_entities_registered {\<lparr>getEntity = 8\<rparr>, \<lparr>getEntity = 7\<rparr>} (demo_scene {1, 2} []) \<and>
   skybox_entities_registered {\<lparr>getEntity = 8\<rparr>, \<lparr>getEntity = 7\<rparr>}
     (setSkybox (Some \<lparr>getEntity = 8\<rparr>) (demo_scene {1, 2} []))"
proof -
  let ?s = "demo_scene {1, 2} []"
  let ?A = "\<lparr>getEntity = 8\<rparr>"
  let ?K = "{\<lparr>getEntity = 8\<rparr>, \<lparr>getEntity = 7\<rparr>}"
  have h1: "mSkybox ?s = None \<and> getEntity ?A \<notin> mEntities ?s"
    by (simp add: demo_scene_def)
  have h2: "skybox_entities_registered ?K ?s \<and> (\<forall>k. Some ?A = Some k \<longrightarrow> k \<in> ?K)"
    by (simp add: skybox_entities_registered_def demo_scene_def)
  note t = setSkybox_membership [of ?s ?A "Some ?A" ?K]
  have a: "mEntities (setSkybox None (setSkybox (Some ?A) ?s)) = mEntities ?s"
    by (rule t [THEN conjunct1, THEN mp, OF h1])
  have "mEntities (setSkybox (Some ?A) ?s) = (mEntities ?s - {}) \<union> {8}"
    using t [THEN conjunct2, THEN conjunct1] h1 by simp
  then have b: "mEntities (setSkybox (Some ?A) ?s) = {1, 2, 8}"
    by (simp add: demo_scene_def insert_commute)
  have c: "skybox_entities_registered ?K (setSkybox (Some ?A) ?s)"
    by (rule t [THEN conjunct2, THEN conjunct2, THEN conjunct2, THEN mp, OF h2])
  from h1 [THEN conjunct1] h1 [THEN conjunct2] a b h2 [THEN conjunct1] c show ?thesis
    by (intro conjI)
qed

end
